theory Spec2Isabelle
  imports Main "HOL-Library.Word"
begin

unbundle bit_operations_syntax

section \<open>Values of the runtime\<close>

text \<open>
  A JavaScript string is a sequence of UTF-16 code units, and \<open>length\<close> counts code
  units. A \<open>Buffer\<close> is a sequence of bytes. The labels of the script chunks are the
  string-literal types of \<open>src/index.ts\<close>; each is a datatype with one constructor per
  literal.
\<close>

type_synonym jsstring = "16 word list"
type_synonym Buffer = "8 word list"

definition js :: "string \<Rightarrow> jsstring" where
  \<comment> \<open>an ASCII literal as a JavaScript string\<close>
  "js s = map (\<lambda>c. of_nat (of_char c)) s"

datatype ScriptChunkLokadUTF8 = RANK
datatype ScriptChunkPlatformUTF8 = twitter
datatype ScriptChunkSentimentUTF8 = positive | negative

text \<open>
  What a call can throw. None of the functions has an error in its result type: a
  failure is an exception. \<open>ERR_OUT_OF_RANGE\<close> is the RangeError of \<open>Buffer.write\<close>
  for an offset outside the buffer, \<open>ERR_BUFFER_OUT_OF_BOUNDS\<close> the RangeError of
  \<open>Buffer.readUint8\<close> on a buffer with no byte, \<open>SyntaxError\<close> the error of
  \<open>BigInt(string)\<close> for a string that is no integer literal.
\<close>

datatype thrown = ERR_OUT_OF_RANGE | ERR_BUFFER_OUT_OF_BOUNDS | SyntaxError

section \<open>The chunk registries\<close>

text \<open>
  A \<open>Map\<close> keeps its entries in insertion order and \<open>set\<close> on a fresh key appends, so
  each registry is the association list of its \<open>set\<close> calls, in order. \<open>Map.get\<close> is
  \<open>map_of\<close>.
\<close>

type_synonym ScriptChunkLokadMap = "(nat \<times> ScriptChunkLokadUTF8) list"
type_synonym ScriptChunkPlatformMap = "(nat \<times> ScriptChunkPlatformUTF8) list"
type_synonym ScriptChunkSentimentMap = "(nat \<times> ScriptChunkSentimentUTF8) list"

definition SCRIPT_CHUNK_LOKAD :: ScriptChunkLokadMap where
  "SCRIPT_CHUNK_LOKAD = [(0x52414e4b, RANK)]"

definition SCRIPT_CHUNK_SENTIMENT :: ScriptChunkSentimentMap where
  "SCRIPT_CHUNK_SENTIMENT = [(0x51, positive), (0x00, negative)]"

definition SCRIPT_CHUNK_PLATFORM :: ScriptChunkPlatformMap where
  "SCRIPT_CHUNK_PLATFORM = [(0x01, twitter)]"

definition RANK_SCRIPT_REQUIRED_LENGTH :: nat where
  "RANK_SCRIPT_REQUIRED_LENGTH = 10"

datatype ScriptChunkMap =
    LokadMap ScriptChunkLokadMap
  | PlatformMap ScriptChunkPlatformMap
  | SentimentMap ScriptChunkSentimentMap

record ScriptChunk =
  chunk_offset :: "nat option"
  chunk_len :: "nat option"
  chunk_map :: "ScriptChunkMap option"

record RequiredChunks =
  lokad_chunk :: ScriptChunk
  sentiment_chunk :: ScriptChunk
  platform_chunk :: ScriptChunk
  profileId_chunk :: ScriptChunk

definition RANK_SCRIPT_CHUNKS_REQUIRED :: RequiredChunks where
  "RANK_SCRIPT_CHUNKS_REQUIRED =
     \<lparr> lokad_chunk =
         \<lparr> chunk_offset = Some 2, chunk_len = Some 4,
           chunk_map = Some (LokadMap SCRIPT_CHUNK_LOKAD) \<rparr>,
       sentiment_chunk =
         \<lparr> chunk_offset = Some 6, chunk_len = Some 1,
           chunk_map = Some (SentimentMap SCRIPT_CHUNK_SENTIMENT) \<rparr>,
       platform_chunk =
         \<lparr> chunk_offset = Some 8, chunk_len = Some 1,
           chunk_map = Some (PlatformMap SCRIPT_CHUNK_PLATFORM) \<rparr>,
       profileId_chunk =
         \<lparr> chunk_offset = Some 10, chunk_len = None, chunk_map = None \<rparr> \<rparr>"

section \<open>Platform parameters\<close>

text \<open>
  The sources hold two revisions of the file. \<open>PLATFORMS\<close> is the table of
  \<open>src/index.ts\<close>, with the pattern \<open>/^[0-9]+$/\<close>. \<open>PLATFORMS_part_000\<close> is the table
  of the older \<open>src/unnamed/part_000\<close>: it names the width of a post id \<open>chunkLength\<close>
  (the field \<open>postId_len\<close> here) and has the pattern \<open>/[0-9]+/\<close> without anchors, which
  matches every string that holds a digit. The functions are the same in both.
\<close>

datatype PostIdReader = readBigUInt64BE
datatype PostIdType = BigInt | Number | String

record PlatformParameters =
  profileId_len :: nat
  postId_len :: nat
  postId_regex :: "jsstring \<Rightarrow> bool"
  postId_reader :: PostIdReader
  postId_type :: PostIdType

definition is_digit :: "16 word \<Rightarrow> bool" where
  "is_digit c = (0x30 \<le> c \<and> c \<le> 0x39)"

definition regex_digits :: "jsstring \<Rightarrow> bool" where
  \<comment> \<open>\<open>/^[0-9]+$/.test(s)\<close>: without the \<open>m\<close> flag \<open>$\<close> is the end of the input\<close>
  "regex_digits s = (s \<noteq> [] \<and> list_all is_digit s)"

fun PLATFORMS :: "ScriptChunkPlatformUTF8 \<Rightarrow> PlatformParameters" where
  "PLATFORMS twitter =
     \<lparr> profileId_len = 16, postId_len = 8, postId_regex = regex_digits,
       postId_reader = readBigUInt64BE, postId_type = BigInt \<rparr>"



section \<open>Platform and sentiment codes\<close>

definition readUint8 :: "Buffer \<Rightarrow> thrown + nat" where
  \<comment> \<open>\<open>buf.readUint8()\<close>: the byte at offset 0, a RangeError on an empty buffer\<close>
  "readUint8 buf = (case buf of [] \<Rightarrow> Inl ERR_BUFFER_OUT_OF_BOUNDS | b # _ \<Rightarrow> Inr (unat b))"

fun toPlatformBuf_loop ::
  "ScriptChunkPlatformMap \<Rightarrow> ScriptChunkPlatformUTF8 \<Rightarrow> Buffer option" where
  "toPlatformBuf_loop [] platform = None"
| "toPlatformBuf_loop ((byte, platformName) # entries) platform =
     (if platformName = platform then Some [of_nat byte]
      else toPlatformBuf_loop entries platform)"

definition toPlatformBuf :: "ScriptChunkPlatformUTF8 \<Rightarrow> Buffer option" where
  \<comment> \<open>\<open>None\<close> is the \<open>undefined\<close> of a loop that ends without a \<open>return\<close>\<close>
  "toPlatformBuf platform = toPlatformBuf_loop SCRIPT_CHUNK_PLATFORM platform"

definition toPlatformUTF8 :: "Buffer \<Rightarrow> thrown + ScriptChunkPlatformUTF8 option" where
  "toPlatformUTF8 platformBuf =
     (case readUint8 platformBuf of
        Inl e \<Rightarrow> Inl e
      | Inr byte \<Rightarrow> Inr (map_of SCRIPT_CHUNK_PLATFORM byte))"

text \<open>
  \<open>toSentimentOpCode\<close> returns one of the two string literals \<open>'OP_1'\<close> and \<open>'OP_0'\<close>:
  the name of a script opcode, not its byte.
\<close>

fun toSentimentOpCode :: "ScriptChunkSentimentUTF8 \<Rightarrow> string" where
  "toSentimentOpCode positive = ''OP_1''"
| "toSentimentOpCode negative = ''OP_0''"

text \<open>
  The numbering of the two opcodes is not computed by the sources; it is what the
  comments on the entries of \<open>SCRIPT_CHUNK_SENTIMENT\<close> say: \<open>0x51\<close> is
  \<open>OP_1 | OP_TRUE\<close> and \<open>0x00\<close> is \<open>OP_0 | OP_FALSE\<close>.
\<close>

definition opcode_byte :: "string \<Rightarrow> 8 word option" where
  "opcode_byte name =
     (if name = ''OP_1'' then Some 0x51 else if name = ''OP_0'' then Some 0x00 else None)"

definition toSentimentUTF8 :: "Buffer \<Rightarrow> thrown + ScriptChunkSentimentUTF8 option" where
  "toSentimentUTF8 sentimentBuf =
     (case readUint8 sentimentBuf of
        Inl e \<Rightarrow> Inl e
      | Inr byte \<Rightarrow> Inr (map_of SCRIPT_CHUNK_SENTIMENT byte))"

section \<open>Strings and bytes\<close>

text \<open>
  The code points of a string, as the UTF-8 writers of the runtime read it: a high
  surrogate followed by a low one is one supplementary code point, a surrogate on its
  own is replaced by U+FFFD.
\<close>

definition is_high_surrogate :: "16 word \<Rightarrow> bool" where
  "is_high_surrogate c = (0xD800 \<le> c \<and> c \<le> 0xDBFF)"

definition is_low_surrogate :: "16 word \<Rightarrow> bool" where
  "is_low_surrogate c = (0xDC00 \<le> c \<and> c \<le> 0xDFFF)"

fun code_points :: "jsstring \<Rightarrow> nat list" where
  "code_points [] = []"
| "code_points [c] =
     [if is_high_surrogate c \<or> is_low_surrogate c then 0xFFFD else unat c]"
| "code_points (c # d # cs) =
     (if is_high_surrogate c \<and> is_low_surrogate d
      then (0x10000 + (unat c - 0xD800) * 0x400 + (unat d - 0xDC00)) # code_points cs
      else if is_high_surrogate c \<or> is_low_surrogate c
      then 0xFFFD # code_points (d # cs)
      else unat c # code_points (d # cs))"

definition utf8_bytes :: "nat \<Rightarrow> Buffer" where
  \<comment> \<open>the UTF-8 encoding of one code point\<close>
  "utf8_bytes cp =
     (if cp < 0x80 then [of_nat cp]
      else if cp < 0x800 then
        [of_nat (0xC0 + cp div 0x40), of_nat (0x80 + cp mod 0x40)]
      else if cp < 0x10000 then
        [of_nat (0xE0 + cp div 0x1000), of_nat (0x80 + cp div 0x40 mod 0x40),
         of_nat (0x80 + cp mod 0x40)]
      else
        [of_nat (0xF0 + cp div 0x40000), of_nat (0x80 + cp div 0x1000 mod 0x40),
         of_nat (0x80 + cp div 0x40 mod 0x40), of_nat (0x80 + cp mod 0x40)])"

definition Buffer_from_utf8 :: "jsstring \<Rightarrow> Buffer" where
  \<comment> \<open>\<open>Buffer.from(string)\<close>: the whole string in UTF-8\<close>
  "Buffer_from_utf8 s = concat (map utf8_bytes (code_points s))"

text \<open>
  \<open>buf.utf8Write(string, offset, length)\<close> writes at most \<open>length\<close> bytes, and never
  a part of a character: it stops before the first character that does not fit.
\<close>

fun utf8Write :: "nat list \<Rightarrow> nat \<Rightarrow> Buffer" where
  "utf8Write [] capacity = []"
| "utf8Write (cp # cps) capacity =
     (if length (utf8_bytes cp) \<le> capacity
      then utf8_bytes cp @ utf8Write cps (capacity - length (utf8_bytes cp))
      else [])"

definition Buffer_alloc :: "nat \<Rightarrow> Buffer" where
  "Buffer_alloc n = replicate n 0"

text \<open>
  \<open>buf.write(string, offset, 'utf8')\<close>: the offset is validated against
  \<open>0 .. buf.length\<close> (a RangeError outside), then the string is written into the
  remaining \<open>buf.length - offset\<close> bytes. The result is the buffer after the call.
\<close>

definition Buffer_write :: "Buffer \<Rightarrow> jsstring \<Rightarrow> int \<Rightarrow> thrown + Buffer" where
  "Buffer_write buf string offset =
     (if offset < 0 \<or> int (length buf) < offset then Inl ERR_OUT_OF_RANGE
      else
        let off = nat offset;
            bytes = utf8Write (code_points string) (length buf - off)
        in Inr (take off buf @ bytes @ drop (off + length bytes) buf))"

subsection \<open>Decoding UTF-8\<close>

text \<open>
  \<open>new TextDecoder('utf-8').decode(bytes)\<close> is the UTF-8 decoder of the Encoding
  Standard, not fatal: every ill-formed sequence gives U+FFFD, and a byte that ends a
  sequence early is read again as the start of the next one. A leading U+FEFF is
  dropped (\<open>ignoreBOM\<close> is false).
\<close>

datatype utf8_state =
    Idle
  | Pending nat nat nat nat nat
    \<comment> \<open>code point so far, bytes seen, bytes needed, lower and upper boundary\<close>

datatype utf8_lead = Emit nat | Start utf8_state | Invalid

definition utf8_first :: "8 word \<Rightarrow> utf8_lead" where
  "utf8_first b =
     (if b \<le> 0x7F then Emit (unat b)
      else if 0xC2 \<le> b \<and> b \<le> 0xDF then
        Start (Pending (unat (b AND 0x1F)) 0 1 0x80 0xBF)
      else if 0xE0 \<le> b \<and> b \<le> 0xEF then
        Start (Pending (unat (b AND 0xF)) 0 2
                 (if b = 0xE0 then 0xA0 else 0x80) (if b = 0xED then 0x9F else 0xBF))
      else if 0xF0 \<le> b \<and> b \<le> 0xF4 then
        Start (Pending (unat (b AND 0x7)) 0 3
                 (if b = 0xF0 then 0x90 else 0x80) (if b = 0xF4 then 0x8F else 0xBF))
      else Invalid)"

fun utf8_decode :: "utf8_state \<Rightarrow> Buffer \<Rightarrow> nat list" where
  "utf8_decode Idle [] = []"
| "utf8_decode (Pending cp seen needed lower upper) [] = [0xFFFD]"
| "utf8_decode Idle (b # bs) =
     (case utf8_first b of
        Emit c \<Rightarrow> c # utf8_decode Idle bs
      | Start st \<Rightarrow> utf8_decode st bs
      | Invalid \<Rightarrow> 0xFFFD # utf8_decode Idle bs)"
| "utf8_decode (Pending cp seen needed lower upper) (b # bs) =
     (if unat b < lower \<or> upper < unat b then
        0xFFFD #
        (case utf8_first b of
           Emit c \<Rightarrow> c # utf8_decode Idle bs
         | Start st \<Rightarrow> utf8_decode st bs
         | Invalid \<Rightarrow> 0xFFFD # utf8_decode Idle bs)
      else if Suc seen = needed then
        (cp * 0x40 + unat (b AND 0x3F)) # utf8_decode Idle bs
      else
        utf8_decode (Pending (cp * 0x40 + unat (b AND 0x3F)) (Suc seen) needed 0x80 0xBF) bs)"

definition utf16_units :: "nat \<Rightarrow> jsstring" where
  "utf16_units cp =
     (if cp < 0x10000 then [of_nat cp]
      else [of_nat (0xD800 + (cp - 0x10000) div 0x400),
            of_nat (0xDC00 + (cp - 0x10000) mod 0x400)])"

definition strip_BOM :: "nat list \<Rightarrow> nat list" where
  "strip_BOM cps = (case cps of [] \<Rightarrow> [] | c # cs \<Rightarrow> if c = 0xFEFF then cs else c # cs)"

definition TextDecoder_decode :: "Buffer \<Rightarrow> jsstring" where
  "TextDecoder_decode bytes = concat (map utf16_units (strip_BOM (utf8_decode Idle bytes)))"

section \<open>Profile ids\<close>

definition toProfileIdBuf :: "ScriptChunkPlatformUTF8 \<Rightarrow> jsstring \<Rightarrow> thrown + Buffer" where
  "toProfileIdBuf platform profileId =
     (let platformSpec = PLATFORMS platform;
          profileBuf = Buffer_alloc (profileId_len platformSpec)
      in Buffer_write profileBuf profileId
           (int (profileId_len platformSpec) - int (length profileId)))"

definition toProfileIdUTF8 :: "Buffer \<Rightarrow> jsstring" where
  "toProfileIdUTF8 profileIdBuf = TextDecoder_decode (filter (\<lambda>byte. byte \<noteq> 0x00) profileIdBuf)"

text \<open>The code units of ASCII other than NUL: one byte of UTF-8 each, and never 0x00.\<close>

definition ascii :: "16 word \<Rightarrow> bool" where
  "ascii c = (c \<noteq> 0 \<and> c < 0x80)"

section \<open>Post ids\<close>

subsection \<open>\<open>BigInt(string)\<close>\<close>

text \<open>
  \<open>BigInt\<close> of a string is StringToBigInt of the language standard: white space is
  trimmed on both sides; the empty rest is 0; otherwise the rest is a decimal literal
  with an optional sign, or an unsigned literal with one of the prefixes
  \<open>0x 0o 0b\<close> (either case). Any other string throws a SyntaxError.
\<close>

definition StrWhiteSpaceChar :: "16 word \<Rightarrow> bool" where
  "StrWhiteSpaceChar c =
     (c \<in> set [0x09, 0x0A, 0x0B, 0x0C, 0x0D, 0x20, 0xA0, 0x1680, 0x2028, 0x2029, 0x202F,
                0x205F, 0x3000, 0xFEFF]
      \<or> (0x2000 \<le> c \<and> c \<le> 0x200A))"

definition trim :: "jsstring \<Rightarrow> jsstring" where
  "trim s = rev (dropWhile StrWhiteSpaceChar (rev (dropWhile StrWhiteSpaceChar s)))"

definition digit_value :: "16 word \<Rightarrow> nat option" where
  "digit_value c =
     (if 0x30 \<le> c \<and> c \<le> 0x39 then Some (unat c - 0x30)
      else if 0x61 \<le> c \<and> c \<le> 0x66 then Some (unat c - 0x61 + 10)
      else if 0x41 \<le> c \<and> c \<le> 0x46 then Some (unat c - 0x41 + 10)
      else None)"

fun digits_value :: "nat \<Rightarrow> nat \<Rightarrow> jsstring \<Rightarrow> nat option" where
  "digits_value radix acc [] = Some acc"
| "digits_value radix acc (c # cs) =
     (case digit_value c of
        None \<Rightarrow> None
      | Some d \<Rightarrow> if d < radix then digits_value radix (acc * radix + d) cs else None)"

definition parse_digits :: "nat \<Rightarrow> jsstring \<Rightarrow> nat option" where
  \<comment> \<open>one digit at least\<close>
  "parse_digits radix s = (if s = [] then None else digits_value radix 0 s)"

fun radix_prefix :: "jsstring \<Rightarrow> (nat \<times> jsstring) option" where
  "radix_prefix (c # x # cs) =
     (if c \<noteq> 0x30 then None
      else if x = 0x78 \<or> x = 0x58 then Some (16, cs)
      else if x = 0x6F \<or> x = 0x4F then Some (8, cs)
      else if x = 0x62 \<or> x = 0x42 then Some (2, cs)
      else None)"
| "radix_prefix s = None"

definition StrIntegerLiteral :: "jsstring \<Rightarrow> int option" where
  "StrIntegerLiteral s =
     (case radix_prefix s of
        Some (radix, ds) \<Rightarrow> map_option int (parse_digits radix ds)
      | None \<Rightarrow>
          (case s of
             [] \<Rightarrow> None
           | c # cs \<Rightarrow>
               if c = 0x2B then map_option int (parse_digits 10 cs)
               else if c = 0x2D then map_option (\<lambda>n. - int n) (parse_digits 10 cs)
               else map_option int (parse_digits 10 s)))"

definition StringToBigInt :: "jsstring \<Rightarrow> int option" where
  "StringToBigInt str = (let t = trim str in if t = [] then Some 0 else StrIntegerLiteral t)"

subsection \<open>Hexadecimal text\<close>

definition hex_char :: "nat \<Rightarrow> 16 word" where
  "hex_char d = (if d < 10 then of_nat (0x30 + d) else of_nat (0x61 + (d - 10)))"

function hex_digits :: "nat \<Rightarrow> jsstring" where
  "hex_digits n = (if n < 16 then [hex_char n] else hex_digits (n div 16) @ [hex_char (n mod 16)])"
  by pat_completeness auto
termination
  by (relation "measure (\<lambda>n. n)") auto

declare hex_digits.simps [simp del]

definition BigInt_toString16 :: "int \<Rightarrow> jsstring" where
  \<comment> \<open>\<open>n.toString(16)\<close>: no leading zero, a minus sign before a negative value\<close>
  "BigInt_toString16 n = (if n < 0 then 0x2D # hex_digits (nat (- n)) else hex_digits (nat n))"

text \<open>
  \<open>Buffer.from(text, 'hex')\<close> reads the text two characters at a time and stops at the
  first pair that is not two hexadecimal digits; a single last character is dropped.
\<close>

fun Buffer_from_hex :: "jsstring \<Rightarrow> Buffer" where
  "Buffer_from_hex (a # b # cs) =
     (case (digit_value a, digit_value b) of
        (Some x, Some y) \<Rightarrow> of_nat (x * 16 + y) # Buffer_from_hex cs
      | _ \<Rightarrow> [])"
| "Buffer_from_hex cs = []"

definition Buffer_toString_hex :: "Buffer \<Rightarrow> jsstring" where
  "Buffer_toString_hex buf =
     concat (map (\<lambda>b. [hex_char (unat b div 16), hex_char (unat b mod 16)]) buf)"

definition hex_text :: "jsstring \<Rightarrow> bool" where
  \<comment> \<open>every character is a hexadecimal digit\<close>
  "hex_text s = list_all (\<lambda>c. digit_value c \<noteq> None) s"

subsection \<open>\<open>toPostIdBuf\<close>\<close>

text \<open>
  The \<open>Number\<close> branch formats an IEEE double, which is outside this embedding (and
  for a fraction the digits are left to the implementation): the composition
  \<open>Number(postId).toString(16)\<close> is the parameter \<open>numberToString16\<close>. Neither call
  throws. No platform of \<open>PLATFORMS\<close> selects this branch.
\<close>

definition toPostIdBuf ::
  "(jsstring \<Rightarrow> jsstring) \<Rightarrow> ScriptChunkPlatformUTF8 \<Rightarrow> jsstring \<Rightarrow> thrown + Buffer" where
  "toPostIdBuf numberToString16 platform postId =
     (case postId_type (PLATFORMS platform) of
        BigInt \<Rightarrow>
          (case StringToBigInt postId of
             None \<Rightarrow> Inl SyntaxError
           | Some n \<Rightarrow> Inr (Buffer_from_hex (BigInt_toString16 n)))
      | Number \<Rightarrow> Inr (Buffer_from_hex (numberToString16 postId))
      | String \<Rightarrow> Inr (Buffer_from_hex (Buffer_toString_hex (Buffer_from_utf8 postId))))"


text \<open>
  The encoding the specification asks of a \<open>BigInt\<close> post id: the bytes of the value,
  most significant first, with no leading zero byte.
\<close>

function minimal_big_endian :: "nat \<Rightarrow> Buffer" where
  "minimal_big_endian n =
     (if n = 0 then [] else minimal_big_endian (n div 256) @ [of_nat (n mod 256)])"
  by pat_completeness auto
termination
  by (relation "measure (\<lambda>n. n)") auto

declare minimal_big_endian.simps [simp del]

section \<open>The ranking aggregator\<close>

text \<open>
  \<open>src/index.ts\<close> declares the types of the aggregates and none of the operations on
  them. The records follow the declarations; the operations follow section 4.2 of the
  specification.
\<close>

record RankOutput =
  tx_sentiment :: ScriptChunkSentimentUTF8
  tx_platform :: ScriptChunkPlatformUTF8
  tx_profileId :: jsstring
  tx_postId :: "jsstring option"
  tx_instanceId :: "jsstring option"

record RankTransaction = RankOutput +
  txid :: jsstring
  scriptPayload :: jsstring
  height :: "nat option"
  sats :: int
  timestamp :: int

text \<open>
  The entries of \<open>ranks\<close> are transactions without \<open>profileId\<close> and \<open>platform\<close>; here
  they keep the two fields, which no operation reads.
\<close>

record RankTarget =
  target_id :: jsstring
  target_platform :: ScriptChunkPlatformUTF8
  ranking :: int
  ranks :: "RankTransaction list"
  votesPositive :: int
  votesNegative :: int

datatype TargetKind = ProfileTarget | PostTarget

type_synonym TargetKey = "TargetKind \<times> ScriptChunkPlatformUTF8 \<times> jsstring"
type_synonym TargetMap = "TargetKey \<Rightarrow> RankTarget option"

text \<open>
  Modelled from the spec: the aggregator's scoring, absent from the sources.
  "recomputes \<open>ranking\<close> as \<open>votesPositive - votesNegative\<close>".
\<close>

definition recompute :: "RankTarget \<Rightarrow> RankTarget" where
  "recompute t = t\<lparr>ranking := votesPositive t - votesNegative t\<rparr>"

text \<open>
  Modelled from the spec: the aggregator's vote counters, absent from the sources.
  A transaction "increments the matching vote counter"; a rollback "decrements the
  corresponding vote counter".
\<close>

fun count_vote :: "int \<Rightarrow> ScriptChunkSentimentUTF8 \<Rightarrow> RankTarget \<Rightarrow> RankTarget" where
  "count_vote d positive t = t\<lparr>votesPositive := votesPositive t + d\<rparr>"
| "count_vote d negative t = t\<lparr>votesNegative := votesNegative t + d\<rparr>"

text \<open>
  Modelled from the spec: the transition Unseen to Tracked of the aggregator, absent
  from the sources. "first transaction for this key creates the aggregate with
  votesPositive/votesNegative initialized from that transaction's sentiment, ranking
  computed, \<open>ranks = [tx]\<close>".
\<close>

definition create_target :: "TargetKey \<Rightarrow> RankTransaction \<Rightarrow> RankTarget" where
  "create_target key tx =
     recompute (count_vote 1 (tx_sentiment tx)
       \<lparr> target_id = snd (snd key), target_platform = fst (snd key), ranking = 0,
         ranks = [tx], votesPositive = 0, votesNegative = 0 \<rparr>)"

text \<open>
  Modelled from the spec: the transition of a Tracked target of the aggregator, absent
  from the sources. "each subsequent transaction for the same key appends to \<open>ranks\<close>,
  increments the matching vote counter, and recomputes \<open>ranking\<close>"; "processing the
  same transaction twice must be a no-op (idempotent ingestion, detected by txid
  membership in \<open>ranks\<close>)".
\<close>

definition add_rank :: "RankTransaction \<Rightarrow> RankTarget \<Rightarrow> RankTarget" where
  "add_rank tx t =
     (if txid tx \<in> set (map txid (ranks t)) then t
      else recompute (count_vote 1 (tx_sentiment tx) (t\<lparr>ranks := ranks t @ [tx]\<rparr>)))"

text \<open>
  Modelled from the spec: ingestion by the aggregator, absent from the sources. The
  state machine is "per target (profile or post), keyed by \<open>(platform, id)\<close>".
\<close>

definition ingest :: "TargetKey \<Rightarrow> RankTransaction \<Rightarrow> TargetMap \<Rightarrow> TargetMap" where
  "ingest key tx m =
     (case m key of
        None \<Rightarrow> m(key \<mapsto> create_target key tx)
      | Some t \<Rightarrow> m(key \<mapsto> add_rank tx t))"

text \<open>
  Modelled from the spec: the rollback of one evicted txid on one target, absent from
  the sources. The aggregator "removes each matching transaction from its target's
  \<open>ranks\<close>, decrements the corresponding vote counter, and recomputes \<open>ranking\<close>"; a
  txid "not present in the target's \<open>ranks\<close>" is "a no-op".
\<close>

definition evict :: "jsstring \<Rightarrow> RankTarget \<Rightarrow> RankTarget" where
  "evict x t =
     (case find (\<lambda>r. txid r = x) (ranks t) of
        None \<Rightarrow> t
      | Some r \<Rightarrow>
          recompute (count_vote (- 1) (tx_sentiment r) (t\<lparr>ranks := remove1 r (ranks t)\<rparr>)))"

text \<open>
  Modelled from the spec: the reorg rollback of the aggregator, absent from the
  sources. "If \<open>ranks\<close> becomes empty the target reverts to Unseen (removed from the
  map) rather than persisting an empty aggregate."
\<close>

definition rollback :: "jsstring list \<Rightarrow> TargetMap \<Rightarrow> TargetMap" where
  "rollback txids m =
     (\<lambda>key. case m key of
        None \<Rightarrow> None
      | Some t \<Rightarrow> (let t' = fold evict txids t in if ranks t' = [] then None else Some t'))"

text \<open>
  Modelled from the spec: the stream the aggregator folds, absent from the sources:
  "an ordered stream of decoded RankTransaction records", each for a key, and reorg
  notifications "as a set of evicted txids".
\<close>

datatype event = Ingest TargetKey RankTransaction | Rollback "jsstring list"

fun apply_event :: "event \<Rightarrow> TargetMap \<Rightarrow> TargetMap" where
  "apply_event (Ingest key tx) m = ingest key tx m"
| "apply_event (Rollback txids) m = rollback txids m"

definition aggregate :: "event list \<Rightarrow> TargetMap" where
  "aggregate events = fold apply_event events Map.empty"

subsection \<open>The tally of a target\<close>

text \<open>
  Each counter of a target is the number of entries of \<open>ranks\<close> with its sentiment.
\<close>

definition tally_ok :: "RankTarget \<Rightarrow> bool" where
  "tally_ok t =
     (votesPositive t = int (length (filter (\<lambda>r. tx_sentiment r = positive) (ranks t))) \<and>
      votesNegative t = int (length (filter (\<lambda>r. tx_sentiment r = negative) (ranks t))))"

definition all_tally_ok :: "TargetMap \<Rightarrow> bool" where
  "all_tally_ok m = (\<forall>key t. m key = Some t \<longrightarrow> tally_ok t)"

subsection \<open>A run of the aggregator\<close>

text \<open>
  Three votes for the profile \<open>abc\<close> on twitter, two positive and one negative, the
  second one delivered twice; then a reorg evicts the negative vote and a txid the
  aggregator never saw.
\<close>

definition example_tx :: "string \<Rightarrow> ScriptChunkSentimentUTF8 \<Rightarrow> RankTransaction" where
  "example_tx x s =
     \<lparr> tx_sentiment = s, tx_platform = twitter, tx_profileId = js ''abc'', tx_postId = None,
       tx_instanceId = None, txid = js x, scriptPayload = [], height = Some 952169,
       sats = 1000000, timestamp = 0 \<rparr>"

definition example_key :: TargetKey where
  "example_key = (ProfileTarget, twitter, js ''abc'')"

definition example_events :: "event list" where
  "example_events =
     [Ingest example_key (example_tx ''t1'' positive),
      Ingest example_key (example_tx ''t2'' positive),
      Ingest example_key (example_tx ''t3'' negative),
      Ingest example_key (example_tx ''t2'' positive),
      Rollback [js ''t3'', js ''t9'']]"

section \<open>Properties of the codec\<close>

subsection \<open>The chunk table\<close>

text \<open>
  C8. The table of required chunks holds the fixed positions of the grammar: lokad at
  offset 2 with length 4 and the one code 0x52414E4B for RANK; sentiment at offset 6
  with length 1 and the codes 0x51 (positive) and 0x00 (negative); platform at offset 8
  with length 1 and the code 0x01 for twitter; profileId at offset 10 with no length of
  its own, the length being the 16 bytes of the twitter parameters; and the length of
  the required prefix is 10.
\<close>

theorem required_chunk_table:
  "lokad_chunk RANK_SCRIPT_CHUNKS_REQUIRED =
     \<lparr> chunk_offset = Some 2, chunk_len = Some 4,
       chunk_map = Some (LokadMap [(0x52414E4B, RANK)]) \<rparr> \<and>
   map_of SCRIPT_CHUNK_LOKAD 0x52414E4B = Some RANK \<and>
   sentiment_chunk RANK_SCRIPT_CHUNKS_REQUIRED =
     \<lparr> chunk_offset = Some 6, chunk_len = Some 1,
       chunk_map = Some (SentimentMap [(0x51, positive), (0x00, negative)]) \<rparr> \<and>
   map_of SCRIPT_CHUNK_SENTIMENT 0x51 = Some positive \<and>
   map_of SCRIPT_CHUNK_SENTIMENT 0x00 = Some negative \<and>
   platform_chunk RANK_SCRIPT_CHUNKS_REQUIRED =
     \<lparr> chunk_offset = Some 8, chunk_len = Some 1,
       chunk_map = Some (PlatformMap [(0x01, twitter)]) \<rparr> \<and>
   map_of SCRIPT_CHUNK_PLATFORM 0x01 = Some twitter \<and>
   profileId_chunk RANK_SCRIPT_CHUNKS_REQUIRED =
     \<lparr> chunk_offset = Some 10, chunk_len = None, chunk_map = None \<rparr> \<and>
   profileId_len (PLATFORMS twitter) = 16 \<and>
   RANK_SCRIPT_REQUIRED_LENGTH = 10"
  by (simp add: RANK_SCRIPT_CHUNKS_REQUIRED_def SCRIPT_CHUNK_LOKAD_def
      SCRIPT_CHUNK_SENTIMENT_def SCRIPT_CHUNK_PLATFORM_def RANK_SCRIPT_REQUIRED_LENGTH_def)

subsection \<open>Platform codes\<close>

text \<open>
  C6. Every platform label has exactly one entry in the platform registry;
  \<open>toPlatformBuf\<close> returns the one byte of that entry, and \<open>toPlatformUTF8\<close> maps the
  byte back to the label.
\<close>

theorem platform_round_trip:
  "\<exists>byte. toPlatformBuf platform = Some [byte] \<and>
          filter (\<lambda>entry. snd entry = platform) SCRIPT_CHUNK_PLATFORM =
            [(unat byte, platform)] \<and>
          toPlatformUTF8 [byte] = Inr (Some platform)"
  by (cases platform)
    (simp add: toPlatformBuf_def toPlatformUTF8_def SCRIPT_CHUNK_PLATFORM_def readUint8_def)

text \<open>
  C7. A buffer of one byte that is no key of the registry decodes to the absent result,
  for platforms and for sentiments alike; nothing is thrown.
\<close>

theorem unknown_code_absent:
  "(unat b \<notin> fst ` set SCRIPT_CHUNK_PLATFORM \<longrightarrow> toPlatformUTF8 [b] = Inr None) \<and>
   (unat c \<notin> fst ` set SCRIPT_CHUNK_SENTIMENT \<longrightarrow> toSentimentUTF8 [c] = Inr None)"
  by (simp add: toPlatformUTF8_def toSentimentUTF8_def readUint8_def map_of_eq_None_iff)

theorem unknown_code_absent_witness:
  "unat (0x02 :: 8 word) \<notin> fst ` set SCRIPT_CHUNK_PLATFORM \<and>
   toPlatformUTF8 [0x02] = Inr None \<and>
   unat (0x01 :: 8 word) \<notin> fst ` set SCRIPT_CHUNK_SENTIMENT \<and>
   toSentimentUTF8 [0x01] = Inr None"
  using unknown_code_absent [of "0x02" "0x01"]
  by (simp add: SCRIPT_CHUNK_PLATFORM_def SCRIPT_CHUNK_SENTIMENT_def)

subsection \<open>Sentiment codes\<close>

text \<open>
  C4, as stated, fails: \<open>toSentimentOpCode\<close> yields the four characters \<open>OP_1\<close>, not
  the byte 0x51, and \<open>toSentimentUTF8\<close> on those characters finds no entry.
\<close>

theorem sentiment_opcode_is_a_name:
  "toSentimentOpCode positive = ''OP_1'' \<and>
   Buffer_from_utf8 (js (toSentimentOpCode positive)) = [0x4F, 0x50, 0x5F, 0x31] \<and>
   toSentimentUTF8 (Buffer_from_utf8 (js (toSentimentOpCode positive))) = Inr None"
  by code_simp

text \<open>
  C4, amended. \<open>toSentimentOpCode\<close> yields the name of an opcode, \<open>OP_1\<close> for positive
  and \<open>OP_0\<close> for negative. The byte of that opcode (0x51, 0x00) is the key of the
  sentiment in the registry, and \<open>toSentimentUTF8\<close> on that byte returns the sentiment.
\<close>

theorem sentiment_round_trip:
  "\<exists>byte. opcode_byte (toSentimentOpCode sentiment) = Some byte \<and>
          byte = (if sentiment = positive then 0x51 else 0x00) \<and>
          map_of SCRIPT_CHUNK_SENTIMENT (unat byte) = Some sentiment \<and>
          toSentimentUTF8 [byte] = Inr (Some sentiment)"
  by (cases sentiment)
    (simp_all add: opcode_byte_def toSentimentUTF8_def readUint8_def SCRIPT_CHUNK_SENTIMENT_def)

subsection \<open>Profile ids\<close>

lemma length_utf8Write: "length (utf8Write cps capacity) \<le> capacity"
proof (induction cps arbitrary: capacity)
  case Nil
  show ?case by simp
next
  case (Cons cp cps)
  show ?case
  proof (cases "length (utf8_bytes cp) \<le> capacity")
    case True
    with Cons.IH [of "capacity - length (utf8_bytes cp)"] show ?thesis
      by simp
  next
    case False
    then show ?thesis by simp
  qed
qed

lemma length_Buffer_write:
  assumes "Buffer_write buf s offset = Inr buf'"
  shows "length buf' = length buf"
proof -
  from assms have range: "0 \<le> offset" "offset \<le> int (length buf)"
    by (auto simp: Buffer_write_def split: if_splits)
  define off where "off = nat offset"
  define bytes where "bytes = utf8Write (code_points s) (length buf - off)"
  have "length bytes \<le> length buf - off"
    unfolding bytes_def by (rule length_utf8Write)
  moreover have "off \<le> length buf"
    using range by (simp add: off_def)
  moreover have "buf' = take off buf @ bytes @ drop (off + length bytes) buf"
    using assms range by (simp add: Buffer_write_def Let_def off_def bytes_def)
  ultimately show ?thesis by simp
qed

text \<open>
  C1 fails on the code. The profileId of nine characters U+00E9 is 18 bytes of UTF-8,
  two more than the 16 bytes of the twitter field, and has no zero byte. The write
  starts at \<open>16 - profileId.length = 7\<close>, where nine bytes are left: four characters
  are written, the fifth does not fit, and nothing is thrown. The buffer that is
  returned holds four of the nine characters.
\<close>

theorem toProfileIdBuf_truncates:
  "Buffer_from_utf8 [0xE9, 0xE9, 0xE9, 0xE9, 0xE9, 0xE9, 0xE9, 0xE9, 0xE9] =
     [0xC3, 0xA9, 0xC3, 0xA9, 0xC3, 0xA9, 0xC3, 0xA9, 0xC3, 0xA9, 0xC3, 0xA9, 0xC3, 0xA9,
      0xC3, 0xA9, 0xC3, 0xA9] \<and>
   profileId_len (PLATFORMS twitter) = 16 \<and>
   toProfileIdBuf twitter [0xE9, 0xE9, 0xE9, 0xE9, 0xE9, 0xE9, 0xE9, 0xE9, 0xE9] =
     Inr [0, 0, 0, 0, 0, 0, 0, 0xC3, 0xA9, 0xC3, 0xA9, 0xC3, 0xA9, 0xC3, 0xA9, 0] \<and>
   toProfileIdUTF8 [0, 0, 0, 0, 0, 0, 0, 0xC3, 0xA9, 0xC3, 0xA9, 0xC3, 0xA9, 0xC3, 0xA9, 0] =
     [0xE9, 0xE9, 0xE9, 0xE9]"
proof -
  have "Buffer_from_utf8 [0xE9, 0xE9, 0xE9, 0xE9, 0xE9, 0xE9, 0xE9, 0xE9, 0xE9] =
     [0xC3, 0xA9, 0xC3, 0xA9, 0xC3, 0xA9, 0xC3, 0xA9, 0xC3, 0xA9, 0xC3, 0xA9, 0xC3, 0xA9,
      0xC3, 0xA9, 0xC3, 0xA9]"
    by code_simp
  moreover have
    "toProfileIdBuf twitter [0xE9, 0xE9, 0xE9, 0xE9, 0xE9, 0xE9, 0xE9, 0xE9, 0xE9] =
       Inr [0, 0, 0, 0, 0, 0, 0, 0xC3, 0xA9, 0xC3, 0xA9, 0xC3, 0xA9, 0xC3, 0xA9, 0]"
    unfolding toProfileIdBuf_def by code_simp
  moreover have
    "toProfileIdUTF8 [0, 0, 0, 0, 0, 0, 0, 0xC3, 0xA9, 0xC3, 0xA9, 0xC3, 0xA9, 0xC3, 0xA9, 0] =
       [0xE9, 0xE9, 0xE9, 0xE9]"
    by (simp add: toProfileIdUTF8_def TextDecoder_decode_def strip_BOM_def utf16_units_def
        utf8_first_def)
  ultimately show ?thesis
    by simp
qed

text \<open>
  What the code does reject is a profileId with more code units than the width of the
  field, such as 17 characters of ASCII: the offset of the write is negative and
  \<open>Buffer.write\<close> throws.
\<close>

theorem toProfileIdBuf_too_long:
  "profileId_len (PLATFORMS platform) < length profileId \<Longrightarrow>
   toProfileIdBuf platform profileId = Inl ERR_OUT_OF_RANGE"
  by (simp add: toProfileIdBuf_def Buffer_write_def Let_def)

theorem toProfileIdBuf_too_long_witness:
  "profileId_len (PLATFORMS twitter) < length (js ''12345678901234567'') \<and>
   toProfileIdBuf twitter (js ''12345678901234567'') = Inl ERR_OUT_OF_RANGE"
  using toProfileIdBuf_too_long [of twitter "js ''12345678901234567''"]
  by (simp add: js_def)

text \<open>
  C10. Whenever \<open>toProfileIdBuf\<close> returns, the buffer has the width of the platform's
  field, whatever the profileId holds.
\<close>

theorem toProfileIdBuf_length:
  "toProfileIdBuf platform profileId = Inr buf \<Longrightarrow>
   length buf = profileId_len (PLATFORMS platform)"
  unfolding toProfileIdBuf_def Let_def
  by (drule length_Buffer_write) (simp add: Buffer_alloc_def)

lemma toProfileIdBuf_elonmusk:
  "toProfileIdBuf twitter (js ''elonmusk'') =
     Inr [0, 0, 0, 0, 0, 0, 0, 0, 0x65, 0x6C, 0x6F, 0x6E, 0x6D, 0x75, 0x73, 0x6B]"
  unfolding toProfileIdBuf_def by code_simp

theorem toProfileIdBuf_length_witness:
  "toProfileIdBuf twitter (js ''elonmusk'') =
     Inr [0, 0, 0, 0, 0, 0, 0, 0, 0x65, 0x6C, 0x6F, 0x6E, 0x6D, 0x75, 0x73, 0x6B] \<and>
   length [0, 0, 0, 0, 0, 0, 0, 0, 0x65, 0x6C, 0x6F, 0x6E, 0x6D, 0x75, 0x73, 0x6B :: 8 word] =
     profileId_len (PLATFORMS twitter)"
  using toProfileIdBuf_length [OF toProfileIdBuf_elonmusk]
  by (simp add: toProfileIdBuf_elonmusk)

text \<open>
  C5 fails on the code. The profileId of the one character U+00E9 has no zero byte and
  two bytes of UTF-8, which fit the 16 bytes of the field. The write starts at
  \<open>16 - profileId.length = 15\<close>, where one byte is left: the character does not fit,
  nothing is written, and the way back gives the empty string.
\<close>

theorem profileId_round_trip_lost:
  "Buffer_from_utf8 [0xE9] = [0xC3, 0xA9] \<and>
   toProfileIdBuf twitter [0xE9] = Inr [0, 0, 0, 0, 0, 0, 0, 0, 0, 0, 0, 0, 0, 0, 0, 0] \<and>
   toProfileIdUTF8 [0, 0, 0, 0, 0, 0, 0, 0, 0, 0, 0, 0, 0, 0, 0, 0] = []"
  unfolding toProfileIdBuf_def by code_simp

text \<open>
  The decoder is not at fault: from the two bytes of the character it gives the
  character back. They were never written.
\<close>

lemma toProfileIdUTF8_two_bytes: "toProfileIdUTF8 [0xC3, 0xA9] = [0xE9]"
  by (simp add: toProfileIdUTF8_def TextDecoder_decode_def strip_BOM_def utf16_units_def
      utf8_first_def)

text \<open>
  The loss is confined to profile ids with a character beyond ASCII: there the offset
  \<open>len - profileId.length\<close> leaves fewer bytes than the encoding needs. For a
  profile id of ASCII characters other than NUL that fits the field, the code units are
  the bytes, the padding is stripped and the round trip returns the profile id.
\<close>

lemma ascii_unat: "ascii c \<Longrightarrow> 0 < unat c \<and> unat c < 128"
  by (auto simp: ascii_def word_less_nat_alt unat_gt_0)

lemma ascii_not_surrogate: "ascii c \<Longrightarrow> \<not> is_high_surrogate c \<and> \<not> is_low_surrogate c"
  by (auto simp: ascii_def is_high_surrogate_def is_low_surrogate_def word_less_nat_alt word_le_nat_alt)

lemma code_points_ascii: "list_all ascii s \<Longrightarrow> code_points s = map unat s"
  by (induction s rule: code_points.induct) (auto simp: ascii_not_surrogate)

lemma byte_of_ascii:
  assumes "ascii c"
  shows "unat (ucast c :: 8 word) = unat c"
    and "(ucast c :: 8 word) \<noteq> 0"
    and "(ucast c :: 8 word) \<le> 0x7F"
proof -
  from assms have range: "0 < unat c" "unat c < 128"
    by (simp_all add: ascii_unat)
  then show u: "unat (ucast c :: 8 word) = unat c"
    by (simp add: unsigned_ucast_eq take_bit_nat_eq_self)
  from u range show "(ucast c :: 8 word) \<noteq> 0"
    by (metis not_less_iff_gr_or_eq unat_0)
  from u range show "(ucast c :: 8 word) \<le> 0x7F"
    by (simp add: word_le_nat_alt)
qed

lemma utf8_bytes_ascii: "ascii c \<Longrightarrow> utf8_bytes (unat c) = [ucast c]"
  by (simp add: utf8_bytes_def ascii_unat)

lemma utf8Write_ascii:
  "list_all ascii s \<Longrightarrow> length s \<le> capacity \<Longrightarrow>
   utf8Write (map unat s) capacity = map ucast s"
  by (induction s arbitrary: capacity) (auto simp: utf8_bytes_ascii)

lemma utf8_decode_ascii:
  "list_all ascii s \<Longrightarrow> utf8_decode Idle (map ucast s) = map unat s"
  by (induction s) (auto simp: utf8_first_def byte_of_ascii)

lemma filter_ascii_bytes:
  "list_all ascii s \<Longrightarrow>
   filter (\<lambda>byte. byte \<noteq> 0) (map ucast s :: Buffer) = map ucast s"
  by (induction s) (auto simp: byte_of_ascii)

lemma utf16_units_ascii: "list_all ascii s \<Longrightarrow> concat (map utf16_units (map unat s)) = s"
  by (induction s) (auto simp: utf16_units_def dest: ascii_unat)

lemma strip_BOM_ascii: "list_all ascii s \<Longrightarrow> strip_BOM (map unat s) = map unat s"
  by (cases s) (auto simp: strip_BOM_def dest: ascii_unat)

lemma toProfileIdBuf_ascii:
  assumes "list_all ascii profileId"
    and "length profileId \<le> profileId_len (PLATFORMS platform)"
  shows "toProfileIdBuf platform profileId =
           Inr (replicate (profileId_len (PLATFORMS platform) - length profileId) 0 @
                map ucast profileId)"
proof -
  define n where "n = profileId_len (PLATFORMS platform)"
  define k where "k = n - length profileId"
  have le: "length profileId \<le> n"
    using assms(2) by (simp add: n_def)
  then have off: "nat (int n - int (length profileId)) = k"
    by (simp add: k_def)
  have cap: "n - k = length profileId"
    using le by (simp add: k_def)
  have "utf8Write (code_points profileId) (n - k) = map ucast profileId"
    unfolding code_points_ascii [OF assms(1)] cap
    by (rule utf8Write_ascii [OF assms(1)]) simp
  moreover have "k + length profileId = n"
    using le by (simp add: k_def)
  ultimately show ?thesis
    using le unfolding toProfileIdBuf_def Buffer_write_def Buffer_alloc_def Let_def n_def [symmetric]
    by (simp add: off k_def [symmetric])
qed

lemma toProfileIdUTF8_padded_ascii:
  assumes "list_all ascii profileId"
  shows "toProfileIdUTF8 (replicate k 0 @ map ucast profileId) = profileId"
proof -
  have "toProfileIdUTF8 (replicate k 0 @ map ucast profileId) =
        concat (map utf16_units (strip_BOM (utf8_decode Idle (map ucast profileId))))"
    by (simp add: toProfileIdUTF8_def TextDecoder_decode_def filter_ascii_bytes [OF assms])
  also have "\<dots> = concat (map utf16_units (map unat profileId))"
    by (simp only: utf8_decode_ascii [OF assms] strip_BOM_ascii [OF assms])
  also have "\<dots> = profileId"
    by (rule utf16_units_ascii [OF assms])
  finally show ?thesis .
qed

lemma ascii_profileId_round_trip:
  assumes "list_all ascii profileId"
    and "length profileId \<le> profileId_len (PLATFORMS platform)"
  shows "\<exists>buf. toProfileIdBuf platform profileId = Inr buf \<and> toProfileIdUTF8 buf = profileId"
  using toProfileIdBuf_ascii [OF assms] toProfileIdUTF8_padded_ascii [OF assms(1)]
  by simp

subsection \<open>Post ids\<close>





lemma is_digit_unat: "is_digit c \<longleftrightarrow> 48 \<le> unat c \<and> unat c \<le> 57"
  by (simp add: is_digit_def word_le_nat_alt)

lemma digit_not_white_space: "is_digit c \<Longrightarrow> \<not> StrWhiteSpaceChar c"
  by (auto simp: is_digit_unat StrWhiteSpaceChar_def word_le_nat_alt)

lemma digit_value_digit: "is_digit c \<Longrightarrow> digit_value c = Some (unat c - 48)"
  by (simp add: is_digit_def digit_value_def)

lemma digits_value_digits:
  "list_all is_digit s \<Longrightarrow> \<exists>n. digits_value 10 acc s = Some n"
proof (induction s arbitrary: acc)
  case Nil
  show ?case by simp
next
  case (Cons c cs)
  then have "is_digit c" and rest: "list_all is_digit cs"
    by simp_all
  then have "digit_value c = Some (unat c - 48)" and "unat c - 48 < 10"
    by (auto simp: digit_value_digit is_digit_unat)
  with Cons.IH [OF rest] show ?case
    by simp
qed

lemma dropWhile_unchanged: "s \<noteq> [] \<Longrightarrow> \<not> P (hd s) \<Longrightarrow> dropWhile P s = s"
  by (cases s) simp_all

lemma trim_digits:
  assumes "regex_digits s"
  shows "trim s = s"
proof -
  from assms have ne: "s \<noteq> []" and all: "list_all is_digit s"
    by (simp_all add: regex_digits_def)
  then have "is_digit (hd s)" and "is_digit (hd (rev s))"
    by (auto simp: list_all_iff hd_rev)
  then have "\<not> StrWhiteSpaceChar (hd s)" and "\<not> StrWhiteSpaceChar (hd (rev s))"
    by (auto dest: digit_not_white_space)
  with ne show ?thesis
    by (simp add: trim_def dropWhile_unchanged)
qed

lemma radix_prefix_digits: "list_all is_digit s \<Longrightarrow> radix_prefix s = None"
  by (cases s rule: radix_prefix.cases) (auto simp: is_digit_unat)

lemma StringToBigInt_digits:
  assumes "regex_digits s"
  shows "\<exists>n. digits_value 10 0 s = Some n \<and> StringToBigInt s = Some (int n)"
proof -
  from assms obtain c cs where s: "s = c # cs" and all: "list_all is_digit s"
    by (cases s) (auto simp: regex_digits_def)
  then have "is_digit c" by simp
  then have sign: "c \<noteq> 0x2B" "c \<noteq> 0x2D"
    by (auto simp: is_digit_unat)
  from digits_value_digits [OF all] obtain n where n: "digits_value 10 0 s = Some n" ..
  then have "parse_digits 10 s = Some n"
    by (simp add: parse_digits_def s)
  with sign have "StrIntegerLiteral s = Some (int n)"
    by (simp add: StrIntegerLiteral_def radix_prefix_digits [OF all] s [symmetric]) (simp add: s)
  moreover have "s \<noteq> []"
    by (simp add: s)
  then have "StringToBigInt s = StrIntegerLiteral s"
    unfolding StringToBigInt_def trim_digits [OF assms] by (simp add: Let_def)
  ultimately show ?thesis
    using n by simp
qed

text \<open>
  Among the rejected post ids is every one that holds a character which is neither
  white space, nor a sign, nor a hexadecimal digit, nor the letter of a radix prefix.
\<close>

lemma not_white_space_in_trim:
  assumes "c \<in> set s" and "\<not> StrWhiteSpaceChar c"
  shows "c \<in> set (trim s)"
proof -
  have keep: "c \<in> set xs \<Longrightarrow> c \<in> set (dropWhile StrWhiteSpaceChar xs)" for xs
    using assms(2) by (induction xs) auto
  from assms(1) have "c \<in> set (rev (dropWhile StrWhiteSpaceChar s))"
    by (simp add: keep)
  then have "c \<in> set (dropWhile StrWhiteSpaceChar (rev (dropWhile StrWhiteSpaceChar s)))"
    by (rule keep)
  then show ?thesis
    by (simp add: trim_def)
qed

lemma digits_value_no_digit:
  "c \<in> set s \<Longrightarrow> digit_value c = None \<Longrightarrow> digits_value radix acc s = None"
  by (induction s arbitrary: acc) (auto split: option.splits)

lemma parse_digits_no_digit:
  "c \<in> set s \<Longrightarrow> digit_value c = None \<Longrightarrow> parse_digits radix s = None"
  by (auto simp: parse_digits_def digits_value_no_digit)

lemma radix_prefix_Some:
  assumes "radix_prefix s = Some (radix, ds)"
  shows "\<exists>x. s = 0x30 # x # ds \<and> x \<in> set [0x78, 0x58, 0x6F, 0x4F, 0x62, 0x42]"
  using assms by (cases s rule: radix_prefix.cases) (auto split: if_splits)

lemma StrIntegerLiteral_no_digit:
  assumes "c \<in> set s" and "digit_value c = None"
    and "c \<notin> set [0x2B, 0x2D, 0x78, 0x58, 0x6F, 0x4F]"
  shows "StrIntegerLiteral s = None"
proof (cases "radix_prefix s")
  case (Some p)
  obtain radix ds where p: "p = (radix, ds)"
    by (cases p)
  from radix_prefix_Some [OF Some [unfolded p]] obtain x
    where s: "s = 0x30 # x # ds" and x: "x \<in> set [0x78, 0x58, 0x6F, 0x4F, 0x62, 0x42]"
    by blast
  have "c \<noteq> 0x30" "c \<noteq> 0x62" "c \<noteq> 0x42"
    using assms(2) by (auto simp: digit_value_def)
  with assms(1,3) s x have "c \<in> set ds"
    by auto
  then have "parse_digits radix ds = None"
    using assms(2) by (rule parse_digits_no_digit)
  with Some p show ?thesis
    by (simp add: StrIntegerLiteral_def)
next
  case None
  from assms(1) obtain a cs where s: "s = a # cs"
    by (cases s) auto
  have whole: "parse_digits 10 s = None"
    using assms(1,2) by (rule parse_digits_no_digit)
  have rest: "parse_digits 10 cs = None" if "a = 0x2B \<or> a = 0x2D"
  proof -
    from that assms(1,3) s have "c \<in> set cs"
      by auto
    then show ?thesis
      using assms(2) by (rule parse_digits_no_digit)
  qed
  from None whole rest show ?thesis
    by (auto simp: StrIntegerLiteral_def s)
qed

lemma StringToBigInt_no_digit:
  assumes "c \<in> set s" and "\<not> StrWhiteSpaceChar c" and "digit_value c = None"
    and "c \<notin> set [0x2B, 0x2D, 0x78, 0x58, 0x6F, 0x4F]"
  shows "StringToBigInt s = None"
proof -
  have mem: "c \<in> set (trim s)"
    using assms(1,2) by (rule not_white_space_in_trim)
  then have "trim s \<noteq> []"
    by auto
  moreover have "StrIntegerLiteral (trim s) = None"
    using mem assms(3,4) by (rule StrIntegerLiteral_no_digit)
  ultimately show ?thesis
    by (simp add: StringToBigInt_def)
qed














text \<open>
  C3 fails on the code. The post id 256 is 0x100; its three hexadecimal digits are
  read in pairs and the last one is dropped, so the buffer is the one byte 0x10 where
  the bytes of the value are 0x01 0x00.
\<close>

theorem toPostIdBuf_odd_digits:
  "toPostIdBuf numberToString16 twitter (js ''256'') = Inr [0x10] \<and>
   minimal_big_endian 256 = [0x01, 0x00]"
  unfolding toPostIdBuf_def by code_simp

text \<open>
  On a post id of decimal digits the code returns the bytes of the value when its
  hexadecimal form has an even number of digits, and the bytes of the value divided by
  16 when the number is odd: the last digit is lost.
\<close>

lemma digit_value_hex_char:
  assumes "d < 16"
  shows "digit_value (hex_char d) = Some d"
proof (cases "d < 10")
  case True
  define c :: "16 word" where "c = of_nat (0x30 + d)"
  have "unat c = 0x30 + d"
    unfolding c_def using True by (subst unat_of_nat) simp
  then have "digit_value c = Some d"
    using True by (simp add: digit_value_def word_le_nat_alt)
  moreover have "hex_char d = c"
    using True by (simp add: hex_char_def c_def)
  ultimately show ?thesis
    by simp
next
  case False
  define c :: "16 word" where "c = of_nat (0x61 + (d - 10))"
  have "unat c = 0x61 + (d - 10)"
    unfolding c_def using assms by (subst unat_of_nat) simp
  then have "digit_value c = Some d"
    using False assms by (simp add: digit_value_def word_le_nat_alt)
  moreover have "hex_char d = c"
    using False by (simp add: hex_char_def c_def)
  ultimately show ?thesis
    by simp
qed

lemma hex_text_hex_digits: "hex_text (hex_digits n)"
proof (induction n rule: hex_digits.induct)
  case (1 n)
  show ?case
  proof (cases "n < 16")
    case True
    then show ?thesis
      by (simp add: hex_digits.simps [of n] hex_text_def digit_value_hex_char)
  next
    case False
    with 1 show ?thesis
      by (simp add: hex_digits.simps [of n] hex_text_def digit_value_hex_char)
  qed
qed

lemma Buffer_from_hex_append:
  "even (length xs) \<Longrightarrow> hex_text xs \<Longrightarrow>
   Buffer_from_hex (xs @ ys) = Buffer_from_hex xs @ Buffer_from_hex ys"
  by (induction xs rule: Buffer_from_hex.induct)
    (auto simp: hex_text_def split: option.splits)

lemma hex_digits_last_two:
  assumes "256 \<le> n"
  shows "hex_digits n = hex_digits (n div 256) @ [hex_char (n div 16 mod 16), hex_char (n mod 16)]"
proof -
  have "hex_digits n = hex_digits (n div 16) @ [hex_char (n mod 16)]"
    using assms by (simp add: hex_digits.simps [of n])
  moreover have "\<not> n div 16 < 16"
    using assms by presburger
  then have "hex_digits (n div 16) = hex_digits (n div 16 div 16) @ [hex_char (n div 16 mod 16)]"
    by (simp add: hex_digits.simps [of "n div 16"])
  moreover have "n div 16 div 16 = n div 256"
    by (simp add: div_mult2_eq [symmetric])
  ultimately show ?thesis by simp
qed

lemma byte_of_nibbles: "(of_nat (n div 16 mod 16 * 16 + n mod 16) :: 8 word) = of_nat (n mod 256)"
proof -
  have "n div 16 mod 16 * 16 + n mod 16 = n mod 256"
    by (simp add: mod_mult2_eq [of n 16 16, simplified] ac_simps)
  then show ?thesis by simp
qed

lemma Buffer_from_hex_pair:
  "Buffer_from_hex [hex_char (n div 16 mod 16), hex_char (n mod 16)] = [of_nat (n mod 256)]"
  using byte_of_nibbles [of n]
  by (simp add: digit_value_hex_char del: of_nat_add of_nat_mult)

lemma Buffer_from_hex_even:
  "even (length (hex_digits n)) \<Longrightarrow> Buffer_from_hex (hex_digits n) = minimal_big_endian n"
proof (induction n rule: less_induct)
  case (less n)
  consider "n < 16" | "16 \<le> n" "n < 256" | "256 \<le> n"
    by linarith
  then show ?case
  proof cases
    case 1
    with less.prems show ?thesis
      by (simp add: hex_digits.simps [of n])
  next
    case 2
    then have small: "n div 16 < 16" "n div 256 = 0" "n \<noteq> 0"
      by simp_all
    with 2 have "hex_digits n = [hex_char (n div 16 mod 16), hex_char (n mod 16)]"
      by (simp add: hex_digits.simps [of n] hex_digits.simps [of "n div 16"])
    with small show ?thesis
      by (simp only: Buffer_from_hex_pair)
        (simp add: minimal_big_endian.simps [of n] minimal_big_endian.simps [of 0])
  next
    case 3
    let ?m = "n div 256"
    have split: "hex_digits n = hex_digits ?m @ [hex_char (n div 16 mod 16), hex_char (n mod 16)]"
      using 3 by (rule hex_digits_last_two)
    with less.prems have even: "even (length (hex_digits ?m))"
      by simp
    have "?m < n"
      using 3 by simp
    then have IH: "Buffer_from_hex (hex_digits ?m) = minimal_big_endian ?m"
      using even by (rule less.IH)
    have "Buffer_from_hex (hex_digits n) =
          Buffer_from_hex (hex_digits ?m) @
          Buffer_from_hex [hex_char (n div 16 mod 16), hex_char (n mod 16)]"
      unfolding split using even hex_text_hex_digits by (rule Buffer_from_hex_append)
    also have "\<dots> = minimal_big_endian ?m @ [of_nat (n mod 256)]"
      by (simp only: IH Buffer_from_hex_pair)
    also have "\<dots> = minimal_big_endian n"
      using 3 by (simp add: minimal_big_endian.simps [of n])
    finally show ?thesis .
  qed
qed

lemma Buffer_from_hex_odd:
  assumes "odd (length (hex_digits n))"
  shows "Buffer_from_hex (hex_digits n) = minimal_big_endian (n div 16)"
proof (cases "n < 16")
  case True
  then show ?thesis
    by (simp add: hex_digits.simps [of n] minimal_big_endian.simps [of 0])
next
  case False
  then have split: "hex_digits n = hex_digits (n div 16) @ [hex_char (n mod 16)]"
    by (simp add: hex_digits.simps [of n])
  with assms have even: "even (length (hex_digits (n div 16)))"
    by simp
  have "Buffer_from_hex (hex_digits n) =
        Buffer_from_hex (hex_digits (n div 16)) @ Buffer_from_hex [hex_char (n mod 16)]"
    unfolding split using even hex_text_hex_digits by (rule Buffer_from_hex_append)
  then show ?thesis
    by (simp add: Buffer_from_hex_even [OF even])
qed


lemma toPostIdBuf_digits:
  assumes "postId_regex (PLATFORMS twitter) postId"
  shows "\<exists>n. digits_value 10 0 postId = Some n \<and>
             toPostIdBuf numberToString16 twitter postId =
               Inr (if even (length (hex_digits n)) then minimal_big_endian n
                    else minimal_big_endian (n div 16))"
proof -
  from assms have "regex_digits postId"
    by simp
  from StringToBigInt_digits [OF this] obtain n
    where n: "digits_value 10 0 postId = Some n" "StringToBigInt postId = Some (int n)"
    by blast
  then have "toPostIdBuf numberToString16 twitter postId = Inr (Buffer_from_hex (hex_digits n))"
    by (simp add: toPostIdBuf_def BigInt_toString16_def)
  with n(1) show ?thesis
    by (auto simp: Buffer_from_hex_even Buffer_from_hex_odd)
qed

section \<open>Properties of the aggregator\<close>

lemma tally_ok_recompute [simp]: "tally_ok (recompute t) = tally_ok t"
  by (simp add: tally_ok_def recompute_def)

lemma ranks_recompute [simp]: "ranks (recompute t) = ranks t"
  by (simp add: recompute_def)

lemma ranks_count_vote [simp]: "ranks (count_vote d s t) = ranks t"
  by (cases s) simp_all

lemma tally_ok_create: "tally_ok (create_target key tx)"
  by (cases "tx_sentiment tx") (simp_all add: create_target_def tally_ok_def recompute_def)

lemma tally_ok_add_rank: "tally_ok t \<Longrightarrow> tally_ok (add_rank tx t)"
  by (cases "tx_sentiment tx") (simp_all add: add_rank_def tally_ok_def recompute_def)

lemma length_filter_remove1:
  "r \<in> set rs \<Longrightarrow>
   int (length (filter P (remove1 r rs))) = int (length (filter P rs)) - (if P r then 1 else 0)"
  by (induction rs) auto

lemma find_Some_in_set: "find P rs = Some r \<Longrightarrow> r \<in> set rs"
  by (induction rs) (auto split: if_splits)

lemma tally_ok_evict:
  assumes "tally_ok t"
  shows "tally_ok (evict x t)"
proof (cases "find (\<lambda>r. txid r = x) (ranks t)")
  case None
  with assms show ?thesis by (simp add: evict_def)
next
  case (Some r)
  then have mem: "r \<in> set (ranks t)"
    by (rule find_Some_in_set)
  show ?thesis
  proof (cases "tx_sentiment r")
    case positive
    with assms Some show ?thesis
      by (simp add: evict_def tally_ok_def recompute_def length_filter_remove1 [OF mem])
  next
    case negative
    with assms Some show ?thesis
      by (simp add: evict_def tally_ok_def recompute_def length_filter_remove1 [OF mem])
  qed
qed

lemma tally_ok_fold_evict: "tally_ok t \<Longrightarrow> tally_ok (fold evict txids t)"
  by (induction txids arbitrary: t) (simp_all add: tally_ok_evict)

lemma all_tally_ok_ingest: "all_tally_ok m \<Longrightarrow> all_tally_ok (ingest key tx m)"
  unfolding all_tally_ok_def ingest_def
  by (auto simp: tally_ok_create tally_ok_add_rank split: option.splits if_splits)

lemma all_tally_ok_rollback: "all_tally_ok m \<Longrightarrow> all_tally_ok (rollback txids m)"
  unfolding all_tally_ok_def rollback_def
  by (auto simp: Let_def tally_ok_fold_evict split: option.splits if_splits)

lemma all_tally_ok_apply_event: "all_tally_ok m \<Longrightarrow> all_tally_ok (apply_event e m)"
  by (cases e) (simp_all add: all_tally_ok_ingest all_tally_ok_rollback)

lemma all_tally_ok_fold: "all_tally_ok m \<Longrightarrow> all_tally_ok (fold apply_event events m)"
  by (induction events arbitrary: m) (simp_all add: all_tally_ok_apply_event)

lemma all_tally_ok_aggregate: "all_tally_ok (aggregate events)"
  unfolding aggregate_def by (rule all_tally_ok_fold) (simp add: all_tally_ok_def)

lemma negative_iff: "(s = negative) = (s \<noteq> positive)"
  by (cases s) simp_all

lemma tally_ok_votes:
  assumes "tally_ok t"
  shows "votesPositive t + votesNegative t = int (length (ranks t))"
proof -
  have "votesNegative t = int (length (filter (\<lambda>r. \<not> tx_sentiment r = positive) (ranks t)))"
    using assms by (simp add: tally_ok_def negative_iff)
  moreover have "votesPositive t = int (length (filter (\<lambda>r. tx_sentiment r = positive) (ranks t)))"
    using assms by (simp add: tally_ok_def)
  ultimately show ?thesis
    using sum_length_filter_compl [of "\<lambda>r. tx_sentiment r = positive" "ranks t"] by simp
qed

text \<open>
  C9. Whatever ingestions and rollbacks the aggregator has folded, every target of its
  map has as many votes, positive and negative together, as entries in \<open>ranks\<close>.
\<close>

theorem votes_equal_ranks:
  "aggregate events key = Some t \<Longrightarrow>
   votesPositive t + votesNegative t = int (length (ranks t))"
  using all_tally_ok_aggregate [of events] unfolding all_tally_ok_def
  by (blast intro: tally_ok_votes)

lemma example_run:
  "aggregate example_events example_key =
     Some \<lparr> target_id = js ''abc'', target_platform = twitter, ranking = 2,
            ranks = [example_tx ''t1'' positive, example_tx ''t2'' positive],
            votesPositive = 2, votesNegative = 0 \<rparr>"
  by (simp add: aggregate_def example_events_def ingest_def rollback_def create_target_def
      add_rank_def evict_def recompute_def example_tx_def example_key_def js_def Let_def)

theorem votes_equal_ranks_witness:
  "aggregate example_events example_key =
     Some \<lparr> target_id = js ''abc'', target_platform = twitter, ranking = 2,
            ranks = [example_tx ''t1'' positive, example_tx ''t2'' positive],
            votesPositive = 2, votesNegative = 0 \<rparr> \<and>
   (2::int) + 0 = int (length [example_tx ''t1'' positive, example_tx ''t2'' positive])"
  using votes_equal_ranks [OF example_run] by (simp add: example_run)

end
